theory Spec2Isabelle
  imports Main "HOL-Library.Sublist" "HOL-Library.Log_Nat"
begin

section \<open>JavaScript strings\<close>

text \<open>
  The answer generator of \<^verbatim>\<open>src/server.js\<close> (lines 130 to 243) works on JavaScript
  strings, which are sequences of UTF-16 code units. A \<^typ>\<open>char\<close> stands for one code
  unit in the range U+0000 to U+00FF (ASCII and the Latin-1 supplement), so
  \<^const>\<open>length\<close> is the \<^verbatim>\<open>.length\<close> of such a string. Documents and questions with
  code units above U+00FF are outside the model.
\<close>

text \<open>
  The characters matched by \<^verbatim>\<open>\s\<close> and stripped by \<^verbatim>\<open>trim()\<close>: WhiteSpace and
  LineTerminator of ECMAScript, which below U+0100 are TAB, LF, VT, FF, CR, SPACE and
  NO-BREAK SPACE.
\<close>

definition isWhiteSpace :: "char \<Rightarrow> bool" where
  "isWhiteSpace c =
     (let n = (of_char c :: nat)
      in n = 9 \<or> n = 10 \<or> n = 11 \<or> n = 12 \<or> n = 13 \<or> n = 32 \<or> n = 160)"

text \<open>The character class \<^verbatim>\<open>[.!?]\<close> of the sentence splitter.\<close>

definition isSentenceEnd :: "char \<Rightarrow> bool" where
  "isSentenceEnd c = (c = CHR ''.'' \<or> c = CHR ''!'' \<or> c = CHR ''?'')"

text \<open>
  \<^verbatim>\<open>toLowerCase()\<close>: below U+0100 the letters with a lower-case mapping are A to Z,
  U+00C0 to U+00D6 and U+00D8 to U+00DE, each mapped 32 code points up.
\<close>

definition toLowerChar :: "char \<Rightarrow> char" where
  "toLowerChar c =
     (let n = (of_char c :: nat)
      in if (65 \<le> n \<and> n \<le> 90) \<or> (192 \<le> n \<and> n \<le> 214) \<or> (216 \<le> n \<and> n \<le> 222)
         then char_of (n + 32) else c)"

definition toLowerCase :: "string \<Rightarrow> string" where
  "toLowerCase s = map toLowerChar s"

text \<open>\<^verbatim>\<open>trim()\<close> removes the white space at both ends.\<close>

definition trim :: "string \<Rightarrow> string" where
  "trim s = rev (dropWhile isWhiteSpace (rev (dropWhile isWhiteSpace s)))"

text \<open>
  \<^verbatim>\<open>s.includes(sub)\<close>: \<open>sub\<close> occurs in \<open>s\<close> as a contiguous substring, tried at
  every position from the left. The empty string occurs in every string.
\<close>

fun includesStr :: "string \<Rightarrow> string \<Rightarrow> bool" where
  "includesStr [] sub = (sub = [])"
| "includesStr (c # cs) sub = (prefix sub (c # cs) \<or> includesStr cs sub)"

text \<open>
  \<^verbatim>\<open>s.split(/[C]+/)\<close> for a character class \<open>C\<close>. The separator matches a maximal
  run of characters of the class; the pieces between the runs are returned in order,
  with an empty piece before a leading run and after a trailing one, and the empty
  string splits into one empty piece. \<open>splitLoop\<close> scans the string once: \<open>inRun\<close>
  tells whether the previous character belonged to a separator, \<open>piece\<close> holds the
  current piece reversed.
\<close>

fun splitLoop :: "(char \<Rightarrow> bool) \<Rightarrow> bool \<Rightarrow> string \<Rightarrow> string \<Rightarrow> string list" where
  "splitLoop sep inRun piece [] = [rev piece]"
| "splitLoop sep inRun piece (c # cs) =
     (if sep c
      then (if inRun then splitLoop sep True piece cs
            else rev piece # splitLoop sep True [] cs)
      else splitLoop sep False (c # piece) cs)"

definition split :: "(char \<Rightarrow> bool) \<Rightarrow> string \<Rightarrow> string list" where
  "split sep s = splitLoop sep False [] s"

text \<open>\<^verbatim>\<open>xs.join(sep)\<close> on an array of strings.\<close>

fun join :: "string \<Rightarrow> string list \<Rightarrow> string" where
  "join sep [] = []"
| "join sep [x] = x"
| "join sep (x # y # ys) = x @ sep @ join sep (y # ys)"

text \<open>\<^verbatim>\<open>xs.slice(i, j)\<close> for \<open>0 \<le> i \<le> j\<close>: the elements at the indices \<open>i\<close> to \<open>j - 1\<close> that exist.\<close>

definition slice :: "nat \<Rightarrow> nat \<Rightarrow> 'a list \<Rightarrow> 'a list" where
  "slice i j xs = take (j - i) (drop i xs)"

text \<open>
  \<^verbatim>\<open>xs[0]\<close> is \<^verbatim>\<open>undefined\<close> (here \<^const>\<open>None\<close>) on an empty array, and calling
  \<^verbatim>\<open>.trim()\<close> on \<^verbatim>\<open>undefined\<close> throws a TypeError.
\<close>

datatype js_error = TypeError

definition index0 :: "'a list \<Rightarrow> 'a option" where
  "index0 xs = (case xs of [] \<Rightarrow> None | x # _ \<Rightarrow> Some x)"

definition trimOf :: "string option \<Rightarrow> js_error + string" where
  "trimOf v = (case v of None \<Rightarrow> Inl TypeError | Some s \<Rightarrow> Inr (trim s))"

section \<open>JavaScript numbers\<close>

text \<open>
  A JavaScript number is an IEEE 754 binary64 value. A finite one is modelled by the
  rational it denotes. \<open>double x\<close> is the binary64 value nearest to \<open>x\<close>, ties to the
  even significand: what a decimal literal denotes and what \<^verbatim>\<open>+\<close> and \<^verbatim>\<open>*\<close>
  return for the exact sum or product. Subnormal numbers and overflow are not modelled:
  every number the answer generator computes is 0 or lies between 0.1 and \<open>2\<^sup>3\<^sup>2\<close>.
\<close>

definition binade :: "rat \<Rightarrow> int" where
  "binade x =
     (let (p, q) = quotient_of x; e = bitlen p - bitlen q
      in if power_int 2 e \<le> x then e else e - 1)"

definition roundTiesToEven :: "rat \<Rightarrow> int" where
  "roundTiesToEven q =
     (let f = \<lfloor>q\<rfloor>; r = q - of_int f
      in if r < 1 / 2 \<or> (r = 1 / 2 \<and> even f) then f else f + 1)"

definition double :: "rat \<Rightarrow> rat" where
  "double x =
     (if x = 0 then 0
      else let u = power_int 2 (binade \<bar>x\<bar> - 52)
           in sgn x * of_int (roundTiesToEven (\<bar>x\<bar> / u)) * u)"

definition fadd :: "rat \<Rightarrow> rat \<Rightarrow> rat" where
  "fadd a b = double (a + b)"

definition fmul :: "rat \<Rightarrow> rat \<Rightarrow> rat" where
  "fmul a b = double (a * b)"

section \<open>The answer generator\<close>

text \<open>
  The functions return either a bare string or an object with the fields
  \<^verbatim>\<open>answer\<close>, \<^verbatim>\<open>confidence\<close> and \<^verbatim>\<open>sources\<close>.
\<close>

record answer_record =
  answer :: string
  confidence :: rat
  sources :: "string list"

datatype js_result = AnswerString string | AnswerRecord answer_record

text \<open>\<^verbatim>\<open>getQuestionType\<close> (lines 199 to 208).\<close>

definition getQuestionType :: "string \<Rightarrow> string" where
  "getQuestionType question =
     (let lowerQ = toLowerCase question
      in if includesStr lowerQ ''what'' then ''what''
         else if includesStr lowerQ ''how'' then ''how''
         else if includesStr lowerQ ''why'' then ''why''
         else if includesStr lowerQ ''when'' then ''when''
         else if includesStr lowerQ ''where'' then ''where''
         else if includesStr lowerQ ''who'' then ''who''
         else ''general'')"

text \<open>\<^verbatim>\<open>generateFallbackAnswer\<close> (lines 233 to 243); the object literal is an association list.\<close>

definition fallbackGeneral :: string where
  "fallbackGeneral = ''I've reviewed the document content, but couldn't find specific information addressing your question. The document might cover this topic in sections that weren't fully processed.''"

definition fallbackAnswers :: "(string \<times> string) list" where
  "fallbackAnswers =
     [(''what'', ''The document discusses various topics, but I couldn't find specific information about your question. Could you rephrase or ask about a different aspect?''),
      (''how'', ''The methodology isn't clearly specified in the accessible content. You might want to check specific sections of the document for procedural details.''),
      (''why'', ''The reasoning behind this isn't explicitly stated in the extracted content. The document may contain this information in other sections.''),
      (''general'', fallbackGeneral)]"

text \<open>\<^verbatim>\<open>a || b\<close> on a looked-up string: \<open>b\<close> when \<open>a\<close> is \<^verbatim>\<open>undefined\<close> or empty.\<close>

definition orElse :: "string option \<Rightarrow> string \<Rightarrow> string" where
  "orElse v d = (case v of None \<Rightarrow> d | Some s \<Rightarrow> if s = [] then d else s)"

definition generateFallbackAnswer :: "string \<Rightarrow> string" where
  "generateFallbackAnswer question =
     (let questionType = getQuestionType question
      in orElse (map_of fallbackAnswers questionType) fallbackGeneral)"

text \<open>
  \<^verbatim>\<open>findRelevantContext\<close> (lines 210 to 231). The lookup \<^verbatim>\<open>keywords[questionType] || []\<close>
  is modelled for the seven type names that \<^verbatim>\<open>getQuestionType\<close> returns, the only
  ones the program passes; a name that an object literal inherits, such as
  "constructor", is outside the model.
\<close>

definition keywordsOf :: "(string \<times> string list) list" where
  "keywordsOf =
     [(''what'', [''is'', ''are'', ''means'', ''definition'', ''concept'']),
      (''how'', [''process'', ''method'', ''steps'', ''procedure'', ''works'']),
      (''why'', [''because'', ''reason'', ''purpose'', ''benefit'', ''advantage'']),
      (''when'', [''date'', ''time'', ''period'', ''schedule'', ''timeline'']),
      (''where'', [''location'', ''place'', ''area'', ''region'', ''site''])]"

definition relevantKeywords :: "string \<Rightarrow> string list" where
  "relevantKeywords questionType =
     (case map_of keywordsOf questionType of None \<Rightarrow> [] | Some ks \<Rightarrow> ks)"

text \<open>
  The test of line 224, \<^verbatim>\<open>relevantKeywords.some(keyword => lowerSentence.includes(keyword))\<close>,
  and the \<^verbatim>\<open>for\<close> loop around it: the first sentence that passes leaves the function,
  trimmed.
\<close>

definition hasKeyword :: "string list \<Rightarrow> string \<Rightarrow> bool" where
  "hasKeyword ks sentence =
     (let lowerSentence = toLowerCase sentence
      in list_ex (\<lambda>keyword. includesStr lowerSentence keyword) ks)"

fun keywordLoop :: "string list \<Rightarrow> string list \<Rightarrow> string option" where
  "keywordLoop ks [] = None"
| "keywordLoop ks (sentence # rest) =
     (if hasKeyword ks sentence then Some (trim sentence) else keywordLoop ks rest)"

text \<open>The result is a string, or \<^verbatim>\<open>null\<close> (here \<^const>\<open>None\<close>).\<close>

definition findRelevantContext :: "string \<Rightarrow> string list \<Rightarrow> js_error + string option" where
  "findRelevantContext questionType sentences =
     (case keywordLoop (relevantKeywords questionType) sentences of
        Some found \<Rightarrow> Inr (Some found)
      | None \<Rightarrow>
          if length sentences > 0
          then (case trimOf (index0 sentences) of Inl e \<Rightarrow> Inl e | Inr s \<Rightarrow> Inr (Some s))
          else Inr None)"

text \<open>
  The candidate sentences, computed by the same expression in
  \<^verbatim>\<open>generateAnswerFromContent\<close> (line 135) and \<^verbatim>\<open>generateContextualAnswer\<close> (line 177).
\<close>

definition candidateSentences :: "string \<Rightarrow> string list" where
  "candidateSentences documentText =
     filter (\<lambda>s. length (trim s) > 10) (split isSentenceEnd documentText)"

text \<open>
  \<^verbatim>\<open>generateContextualAnswer\<close> (lines 176 to 197). \<^verbatim>\<open>if (relevantContext)\<close> takes a
  string that is neither \<^verbatim>\<open>null\<close> nor empty.
\<close>

definition generateContextualAnswer :: "string \<Rightarrow> string \<Rightarrow> js_error + js_result" where
  "generateContextualAnswer question documentText =
     (let sentences = candidateSentences documentText;
          questionType = getQuestionType question
      in case findRelevantContext questionType sentences of
           Inl e \<Rightarrow> Inl e
         | Inr relevantContext \<Rightarrow>
             (case relevantContext of
                Some ctx \<Rightarrow>
                  if ctx \<noteq> []
                  then Inr (AnswerRecord
                         \<lparr>answer = ''The document mentions: '' @ ctx,
                          confidence = double (75 / 100),
                          sources = [''Relevant Document Section'']\<rparr>)
                  else Inr (AnswerRecord
                         \<lparr>answer = generateFallbackAnswer question,
                          confidence = double (6 / 10),
                          sources = [''General Document Analysis'']\<rparr>)
              | None \<Rightarrow>
                  Inr (AnswerRecord
                    \<lparr>answer = generateFallbackAnswer question,
                     confidence = double (6 / 10),
                     sources = [''General Document Analysis'']\<rparr>)))"

text \<open>The significant words of the question, line 137.\<close>

definition questionWords :: "string \<Rightarrow> string list" where
  "questionWords question =
     filter (\<lambda>w. length w > 3) (split isWhiteSpace (toLowerCase question))"

text \<open>The filter of lines 140 to 143.\<close>

definition isRelevant :: "string list \<Rightarrow> string \<Rightarrow> bool" where
  "isRelevant qWords sentence =
     (let sentenceLower = toLowerCase sentence
      in list_ex (\<lambda>word. includesStr sentenceLower word) qWords)"

definition relevantSentences :: "string list \<Rightarrow> string list \<Rightarrow> string list" where
  "relevantSentences qWords sentences = filter (isRelevant qWords) sentences"

text \<open>Line 157, on the number of relevant sentences.\<close>

definition relevantConfidence :: "nat \<Rightarrow> rat" where
  "relevantConfidence n =
     min (fadd (double (7 / 10)) (fmul (of_nat n) (double (1 / 10)))) (double (95 / 100))"

text \<open>
  Lines 147 to 159, the body of \<^verbatim>\<open>if (relevantSentences.length > 0)\<close>. A sentence is
  a string and so differs from \<^verbatim>\<open>undefined\<close> under \<^verbatim>\<open>!==\<close>.
\<close>

definition relevantAnswer :: "string list \<Rightarrow> js_error + js_result" where
  "relevantAnswer relevant =
     (let bestSentence = index0 relevant;
          supportingSentences = filter (\<lambda>s. Some s \<noteq> bestSentence) (slice 1 3 relevant)
      in case trimOf bestSentence of
           Inl e \<Rightarrow> Inl e
         | Inr best \<Rightarrow>
             (let answer0 = ''Based on the document: '' @ best;
                  answer1 = (if length supportingSentences > 0
                             then answer0 @ '' Additionally, '' @ join '' '' supportingSentences
                             else answer0)
              in Inr (AnswerRecord
                   \<lparr>answer = answer1,
                    confidence = relevantConfidence (length relevant),
                    sources = [''Document Content Analysis'']\<rparr>)))"

text \<open>
  \<^verbatim>\<open>generateAnswerFromContent\<close> (lines 130 to 174). The document text is \<^const>\<open>None\<close>
  for \<^verbatim>\<open>null\<close> or \<^verbatim>\<open>undefined\<close>. The constant \<^verbatim>\<open>words\<close> of line 136 is never read
  and is left out.
\<close>

definition generateAnswerFromContent :: "string \<Rightarrow> string option \<Rightarrow> js_error + js_result" where
  "generateAnswerFromContent question documentText =
     (case documentText of
        None \<Rightarrow> Inr (AnswerString (generateFallbackAnswer question))
      | Some text \<Rightarrow>
          if text = [] \<or> length (trim text) < 50
          then Inr (AnswerString (generateFallbackAnswer question))
          else
            (let sentences = candidateSentences text;
                 relevant = relevantSentences (questionWords question) sentences
             in if length relevant > 0 then relevantAnswer relevant
                else if includesStr (toLowerCase question) ''summary''
                        \<or> includesStr (toLowerCase question) ''overview''
                then Inr (AnswerRecord
                       \<lparr>answer = ''Document summary: '' @ join ''. '' (slice 0 3 sentences),
                        confidence = double (8 / 10),
                        sources = [''Document Introduction'']\<rparr>)
                else generateContextualAnswer question text))"

text \<open>
  What a reader of the result sees as the answer: the bare string, or the
  \<^verbatim>\<open>answer\<close> field of the object; nothing when the call threw.
\<close>

definition answerText :: "js_error + js_result \<Rightarrow> string option" where
  "answerText r =
     (case r of
        Inl e \<Rightarrow> None
      | Inr (AnswerString s) \<Rightarrow> Some s
      | Inr (AnswerRecord obj) \<Rightarrow> Some (answer obj))"

text \<open>
  The interrogatives in the order in which \<^verbatim>\<open>getQuestionType\<close> tests them.
\<close>

definition interrogatives :: "string list" where
  "interrogatives = [''what'', ''how'', ''why'', ''when'', ''where'', ''who'']"

text \<open>
  For comparison with \<^verbatim>\<open>getQuestionType\<close>, the reading of the specification's words
  "classify question by leading interrogative word": the first non-empty token of the
  lower-cased question names the type when it is an interrogative, and the type is
  "general" otherwise. This definition follows the specification, not the source.
\<close>

definition specLeadingWord :: "string \<Rightarrow> string option" where
  "specLeadingWord question =
     (case filter (\<lambda>w. w \<noteq> []) (split isWhiteSpace (toLowerCase question)) of
        [] \<Rightarrow> None
      | w # _ \<Rightarrow> Some w)"

definition specLeadingWordType :: "string \<Rightarrow> string" where
  "specLeadingWordType question =
     (case specLeadingWord question of
        None \<Rightarrow> ''general''
      | Some w \<Rightarrow> if w \<in> set interrogatives then w else ''general'')"

section \<open>Basic facts\<close>

lemma index0_Cons: "index0 (x # xs) = Some x"
  by (simp add: index0_def)

lemma trimOf_Some: "trimOf (Some s) = Inr (trim s)"
  by (simp add: trimOf_def)

lemma relevantAnswer_Cons:
  "relevantAnswer (b # rest) =
     Inr (AnswerRecord
       \<lparr>answer = (if filter (\<lambda>s. s \<noteq> b) (take 2 rest) \<noteq> []
                  then ''Based on the document: '' @ trim b @ '' Additionally, ''
                         @ join '' '' (filter (\<lambda>s. s \<noteq> b) (take 2 rest))
                  else ''Based on the document: '' @ trim b),
        confidence = relevantConfidence (Suc (length rest)),
        sources = [''Document Content Analysis'']\<rparr>)"
  by (simp add: relevantAnswer_def index0_Cons trimOf_Some slice_def Let_def)

lemma findRelevantContext_eq:
  "findRelevantContext questionType sentences =
     Inr (case keywordLoop (relevantKeywords questionType) sentences of
            Some found \<Rightarrow> Some found
          | None \<Rightarrow> (case sentences of [] \<Rightarrow> None | s # _ \<Rightarrow> Some (trim s)))"
  by (cases sentences)
     (simp_all add: findRelevantContext_def index0_def trimOf_def split: option.splits)

lemma keywordLoop_find:
  "keywordLoop ks sentences = map_option trim (find (hasKeyword ks) sentences)"
  by (induction sentences) simp_all

lemma find_None_list_ex: "find P xs = None \<longleftrightarrow> \<not> list_ex P xs"
  by (induction xs) simp_all

lemma find_Some_set: "find P xs = Some x \<Longrightarrow> x \<in> set xs \<and> P x"
  by (induction xs) (auto split: if_splits)

lemma candidate_trim_nonempty:
  "s \<in> set (candidateSentences documentText) \<Longrightarrow> trim s \<noteq> []"
  by (auto simp: candidateSentences_def)

lemma generateContextualAnswer_Inr:
  "\<exists>r. generateContextualAnswer question documentText = Inr r"
  by (simp add: generateContextualAnswer_def findRelevantContext_eq Let_def
      split: option.splits)

lemma generateContextualAnswer_Nil:
  assumes "candidateSentences documentText = []"
  shows "generateContextualAnswer question documentText =
           Inr (AnswerRecord
             \<lparr>answer = generateFallbackAnswer question,
              confidence = double (6 / 10),
              sources = [''General Document Analysis'']\<rparr>)"
  using assms by (simp add: generateContextualAnswer_def findRelevantContext_eq Let_def)

lemma generateContextualAnswer_Cons:
  assumes "candidateSentences documentText = first # rest"
  shows "generateContextualAnswer question documentText =
           Inr (AnswerRecord
             \<lparr>answer = ''The document mentions: '' @
                (case find (hasKeyword (relevantKeywords (getQuestionType question))) (first # rest) of
                   Some s \<Rightarrow> trim s
                 | None \<Rightarrow> trim first),
              confidence = double (75 / 100),
              sources = [''Relevant Document Section'']\<rparr>)"
proof (cases "find (hasKeyword (relevantKeywords (getQuestionType question))) (first # rest)")
  case None
  have "first \<in> set (candidateSentences documentText)"
    using assms by simp
  then have "trim first \<noteq> []"
    by (rule candidate_trim_nonempty)
  with None assms show ?thesis
    by (simp add: generateContextualAnswer_def findRelevantContext_eq keywordLoop_find Let_def)
next
  case (Some s)
  then have "s \<in> set (first # rest)"
    by (blast dest: find_Some_set)
  with assms have "s \<in> set (candidateSentences documentText)"
    by simp
  then have "trim s \<noteq> []"
    by (rule candidate_trim_nonempty)
  with Some assms show ?thesis
    by (simp add: generateContextualAnswer_def findRelevantContext_eq keywordLoop_find Let_def)
qed

lemma relevantAnswer_Inr: "relevant \<noteq> [] \<Longrightarrow> \<exists>r. relevantAnswer relevant = Inr r"
  by (cases relevant) (simp_all add: relevantAnswer_Cons)

lemma includesStr_sublist: "includesStr s sub \<longleftrightarrow> sublist sub s"
  by (induction s) (simp_all add: sublist_Cons_right)




lemma trim_Nil: "trim [] = []"
  by (simp add: trim_def)

lemma usable_text:
  assumes "50 \<le> length (trim text)"
  shows "\<not> (text = [] \<or> length (trim text) < 50)"
  using assms by (auto simp: trim_Nil)



section \<open>Short or missing document text\<close>

text \<open>
  C4. Whatever the question, a document text that is \<^verbatim>\<open>null\<close>, empty, or shorter than
  50 characters after trimming makes \<^verbatim>\<open>generateAnswerFromContent\<close> return the fallback
  answer of the question's type, as a bare string and not as an object with a
  confidence and sources.
\<close>

theorem short_text_fallback:
  assumes "case documentText of None \<Rightarrow> True | Some t \<Rightarrow> length (trim t) < 50"
  shows "generateAnswerFromContent question documentText =
           Inr (AnswerString (generateFallbackAnswer question))"
proof (cases documentText)
  case None
  then show ?thesis by (simp add: generateAnswerFromContent_def)
next
  case (Some t)
  with assms have "length (trim t) < 50" by simp
  with Some show ?thesis by (simp add: generateAnswerFromContent_def)
qed

theorem short_text_fallback_witness:
  "length (trim ''Too short.'') < 50 \<and>
   generateAnswerFromContent ''How does it work?'' (Some ''Too short.'') =
     Inr (AnswerString ''The methodology isn't clearly specified in the accessible content. You might want to check specific sections of the document for procedural details.'')"
proof -
  have h: "case Some ''Too short.'' of None \<Rightarrow> True | Some t \<Rightarrow> length (trim t) < 50"
    by code_simp
  have f: "generateFallbackAnswer ''How does it work?'' =
      ''The methodology isn't clearly specified in the accessible content. You might want to check specific sections of the document for procedural details.''"
    by code_simp
  from h have "length (trim ''Too short.'') < 50" by simp
  with short_text_fallback [OF h, of "''How does it work?''"] f show ?thesis by simp
qed

section \<open>No exception\<close>

text \<open>
  C8. For every question string and every document text, \<^verbatim>\<open>null\<close> and the empty
  string included, \<^verbatim>\<open>generateAnswerFromContent\<close> returns a result that carries an
  answer, and throws nothing; for the text \<^verbatim>\<open>""\<close> and the question \<^verbatim>\<open>"anything"\<close> the
  result is the general fallback answer.
\<close>

theorem never_throws:
  "(\<exists>r. generateAnswerFromContent question documentText = Inr r) \<and>
   answerText (generateAnswerFromContent question documentText) \<noteq> None \<and>
   generateAnswerFromContent ''anything'' (Some []) = Inr (AnswerString fallbackGeneral)"
proof (intro conjI)
  show r: "\<exists>r. generateAnswerFromContent question documentText = Inr r"
  proof (cases documentText)
    case None
    then show ?thesis by (simp add: generateAnswerFromContent_def)
  next
    case (Some t)
    show ?thesis
    proof (cases "relevantSentences (questionWords question) (candidateSentences t) = []")
      case True
      with Some generateContextualAnswer_Inr [of question t] show ?thesis
        by (auto simp: generateAnswerFromContent_def Let_def)
    next
      case False
      with Some relevantAnswer_Inr [OF False] show ?thesis
        by (auto simp: generateAnswerFromContent_def Let_def)
    qed
  qed
  then obtain res where "generateAnswerFromContent question documentText = Inr res"
    by blast
  then show "answerText (generateAnswerFromContent question documentText) \<noteq> None"
    by (cases res) (simp_all add: answerText_def)
next
  show "generateAnswerFromContent ''anything'' (Some []) = Inr (AnswerString fallbackGeneral)"
    by code_simp
qed

theorem never_throws_witness:
  "\<exists>r. generateAnswerFromContent ''What is the plan?''
         (Some ''The plan is to ship the release next week. Nothing else was decided today.'') = Inr r"
  using never_throws
    [of "''What is the plan?''"
        "Some ''The plan is to ship the release next week. Nothing else was decided today.''"]
  by simp

section \<open>The worked example of the specification\<close>

text \<open>
  C3, as the code behaves. For the text "The cat sat on the mat. It was a sunny day
  outside." and the question "What did the cat sit on?" the only significant word is
  "what" ("sit" has three letters), no sentence contains it, and the question has no
  "summary" or "overview"; the contextual branch finds no keyword of the type "what"
  and answers with the first sentence: "The document mentions: The cat sat on the mat",
  confidence 0.75, source "Relevant Document Section".
\<close>

theorem cat_example:
  "generateAnswerFromContent ''What did the cat sit on?''
     (Some ''The cat sat on the mat. It was a sunny day outside.'') =
   Inr (AnswerRecord
     \<lparr>answer = ''The document mentions: The cat sat on the mat'',
      confidence = 3 / 4,
      sources = [''Relevant Document Section'']\<rparr>)"
  by code_simp

text \<open>
  C3, as stated, fails: the answer for that input does not start with
  "Based on the document: The cat sat on the mat".
\<close>

theorem cat_example_counterexample:
  "map_option (prefix ''Based on the document: The cat sat on the mat'')
     (answerText (generateAnswerFromContent ''What did the cat sit on?''
        (Some ''The cat sat on the mat. It was a sunny day outside.''))) = Some False"
  by code_simp

section \<open>The contextual branch\<close>

text \<open>
  C10. On a non-empty list of sentences \<^verbatim>\<open>findRelevantContext\<close>, called with one of the
  seven question types, never returns \<^verbatim>\<open>null\<close>. When no sentence contains a keyword of
  the question type it returns the trimmed first sentence; the types "who" and
  "general" have no keywords, so for them this is always the case. Hence, whenever the
  document has a sentence of more than 10 trimmed characters and none has a keyword,
  \<^verbatim>\<open>generateContextualAnswer\<close> answers "The document mentions: " followed by the trimmed
  first sentence, with confidence 0.75.
\<close>

theorem first_sentence_when_no_keyword:
  "(questionType \<in> set (interrogatives @ [''general'']) \<longrightarrow>
      (\<exists>ctx. findRelevantContext questionType (first # rest) = Inr (Some ctx))) \<and>
   (questionType \<in> set (interrogatives @ [''general'']) \<and>
    \<not> list_ex (hasKeyword (relevantKeywords questionType)) (first # rest) \<longrightarrow>
      findRelevantContext questionType (first # rest) = Inr (Some (trim first))) \<and>
   (questionType = ''who'' \<or> questionType = ''general'' \<longrightarrow>
      relevantKeywords questionType = [] \<and>
      findRelevantContext questionType (first # rest) = Inr (Some (trim first))) \<and>
   (candidateSentences documentText = first # rest \<and>
    \<not> list_ex (hasKeyword (relevantKeywords (getQuestionType question))) (first # rest) \<longrightarrow>
      generateContextualAnswer question documentText =
        Inr (AnswerRecord
          \<lparr>answer = ''The document mentions: '' @ trim first,
           confidence = double (75 / 100),
           sources = [''Relevant Document Section'']\<rparr>))"
proof (intro conjI impI)
  show "\<exists>ctx. findRelevantContext questionType (first # rest) = Inr (Some ctx)"
    by (simp add: findRelevantContext_eq split: option.splits)
next
  assume "questionType \<in> set (interrogatives @ [''general'']) \<and>
    \<not> list_ex (hasKeyword (relevantKeywords questionType)) (first # rest)"
  then have "find (hasKeyword (relevantKeywords questionType)) (first # rest) = None"
    by (simp add: find_None_list_ex)
  then show "findRelevantContext questionType (first # rest) = Inr (Some (trim first))"
    by (simp add: findRelevantContext_eq keywordLoop_find)
next
  assume "questionType = ''who'' \<or> questionType = ''general''"
  then show "relevantKeywords questionType = []"
    by (auto simp: relevantKeywords_def keywordsOf_def)
next
  assume "questionType = ''who'' \<or> questionType = ''general''"
  then have "relevantKeywords questionType = []"
    by (auto simp: relevantKeywords_def keywordsOf_def)
  then have "find (hasKeyword (relevantKeywords questionType)) (first # rest) = None"
    by (simp add: find_None_iff hasKeyword_def)
  then show "findRelevantContext questionType (first # rest) = Inr (Some (trim first))"
    by (simp add: findRelevantContext_eq keywordLoop_find)
next
  assume a: "candidateSentences documentText = first # rest \<and>
    \<not> list_ex (hasKeyword (relevantKeywords (getQuestionType question))) (first # rest)"
  then have "find (hasKeyword (relevantKeywords (getQuestionType question))) (first # rest) = None"
    by (simp add: find_None_list_ex)
  with a generateContextualAnswer_Cons [of documentText first rest question]
  show "generateContextualAnswer question documentText =
        Inr (AnswerRecord
          \<lparr>answer = ''The document mentions: '' @ trim first,
           confidence = double (75 / 100),
           sources = [''Relevant Document Section'']\<rparr>)"
    by simp
qed

theorem first_sentence_when_no_keyword_witness:
  "\<not> list_ex (hasKeyword (relevantKeywords ''who''))
       [''The weather was cold and windy yesterday'', '' Nobody went outside at all today''] \<and>
   findRelevantContext ''who''
       [''The weather was cold and windy yesterday'', '' Nobody went outside at all today''] =
     Inr (Some ''The weather was cold and windy yesterday'') \<and>
   generateContextualAnswer ''Who was outside?''
       ''The weather was cold and windy yesterday. Nobody went outside at all today.'' =
     Inr (AnswerRecord
       \<lparr>answer = ''The document mentions: The weather was cold and windy yesterday'',
        confidence = double (75 / 100),
        sources = [''Relevant Document Section'']\<rparr>)"
proof -
  have c: "candidateSentences
      ''The weather was cold and windy yesterday. Nobody went outside at all today.'' =
      ''The weather was cold and windy yesterday'' # ['' Nobody went outside at all today'']"
    by code_simp
  have t: "getQuestionType ''Who was outside?'' = ''who''"
    by code_simp
  have n: "\<not> list_ex (hasKeyword (relevantKeywords ''who''))
      (''The weather was cold and windy yesterday'' # ['' Nobody went outside at all today''])"
    by code_simp
  have d: "''who'' \<in> set (interrogatives @ [''general''])"
    by code_simp
  have tr: "trim ''The weather was cold and windy yesterday'' =
      ''The weather was cold and windy yesterday''"
    by code_simp
  note th = first_sentence_when_no_keyword
      [of "''who''" "''The weather was cold and windy yesterday''"
          "['' Nobody went outside at all today'']"
          "''The weather was cold and windy yesterday. Nobody went outside at all today.''"
          "''Who was outside?''"]
  have f: "findRelevantContext ''who''
      (''The weather was cold and windy yesterday'' # ['' Nobody went outside at all today'']) =
      Inr (Some (trim ''The weather was cold and windy yesterday''))"
    using th n d by blast
  have g: "generateContextualAnswer ''Who was outside?''
      ''The weather was cold and windy yesterday. Nobody went outside at all today.'' =
      Inr (AnswerRecord
        \<lparr>answer = ''The document mentions: '' @ trim ''The weather was cold and windy yesterday'',
         confidence = double (75 / 100),
         sources = [''Relevant Document Section'']\<rparr>)"
    using th c n unfolding t by blast
  from n f g show ?thesis
    unfolding tr by simp
qed

text \<open>
  C2, as the code behaves. \<^verbatim>\<open>generateContextualAnswer\<close> returns the fallback template
  of the question type, with confidence 0.6 and source "General Document Analysis",
  exactly when the document has no sentence of more than 10 trimmed characters. When it
  has one, the answer is "The document mentions: " followed by the trimmed first sentence
  that contains a keyword of the question type or, when no sentence contains one, by the
  trimmed first sentence; the confidence is 0.75 and the source "Relevant Document
  Section" in both cases.
\<close>

theorem contextual_answer_cases:
  "generateContextualAnswer question documentText =
     Inr (AnswerRecord
       (case candidateSentences documentText of
          [] \<Rightarrow>
            \<lparr>answer = generateFallbackAnswer question,
             confidence = double (6 / 10),
             sources = [''General Document Analysis'']\<rparr>
        | first # rest \<Rightarrow>
            \<lparr>answer = ''The document mentions: '' @
               (case find (hasKeyword (relevantKeywords (getQuestionType question))) (first # rest) of
                  Some s \<Rightarrow> trim s
                | None \<Rightarrow> trim first),
             confidence = double (75 / 100),
             sources = [''Relevant Document Section'']\<rparr>))"
proof (cases "candidateSentences documentText")
  case Nil
  then show ?thesis
    by (simp add: generateContextualAnswer_Nil)
next
  case (Cons first rest)
  then show ?thesis
    by (simp add: generateContextualAnswer_Cons)
qed

theorem contextual_answer_cases_witness:
  "generateContextualAnswer ''How do birds fly?'' ''No. Yes. Maybe.'' =
     Inr (AnswerRecord
       \<lparr>answer = generateFallbackAnswer ''How do birds fly?'',
        confidence = double (6 / 10),
        sources = [''General Document Analysis'']\<rparr>) \<and>
   generateContextualAnswer ''How do birds fly?''
       ''The engine starts first. The whole process takes about an hour.'' =
     Inr (AnswerRecord
       \<lparr>answer = ''The document mentions: The whole process takes about an hour'',
        confidence = double (75 / 100),
        sources = [''Relevant Document Section'']\<rparr>)"
proof -
  have c1: "candidateSentences ''No. Yes. Maybe.'' = []"
    by code_simp
  have c2: "candidateSentences ''The engine starts first. The whole process takes about an hour.'' =
      [''The engine starts first'', '' The whole process takes about an hour'']"
    by code_simp
  have k: "(case find (hasKeyword (relevantKeywords (getQuestionType ''How do birds fly?'')))
        [''The engine starts first'', '' The whole process takes about an hour''] of
          Some s \<Rightarrow> trim s | None \<Rightarrow> trim ''The engine starts first'') =
      ''The whole process takes about an hour''"
    by code_simp
  have g1: "generateContextualAnswer ''How do birds fly?'' ''No. Yes. Maybe.'' =
     Inr (AnswerRecord
       \<lparr>answer = generateFallbackAnswer ''How do birds fly?'',
        confidence = double (6 / 10),
        sources = [''General Document Analysis'']\<rparr>)"
    using contextual_answer_cases [of "''How do birds fly?''" "''No. Yes. Maybe.''"]
    unfolding c1 by simp
  have g2: "generateContextualAnswer ''How do birds fly?''
       ''The engine starts first. The whole process takes about an hour.'' =
     Inr (AnswerRecord
       \<lparr>answer = ''The document mentions: The whole process takes about an hour'',
        confidence = double (75 / 100),
        sources = [''Relevant Document Section'']\<rparr>)"
    using contextual_answer_cases
      [of "''How do birds fly?''"
          "''The engine starts first. The whole process takes about an hour.''"]
    unfolding c2 list.case k by simp
  from g1 g2 show ?thesis ..
qed

text \<open>
  C2, as stated, fails. The question "How do birds fly?" has the type "how"; no sentence
  of the document below contains one of the keywords process, method, steps, procedure
  or works, and still the answer is "The document mentions: " followed by the first
  sentence, with confidence 0.75, both from \<^verbatim>\<open>generateContextualAnswer\<close> and from
  \<^verbatim>\<open>generateAnswerFromContent\<close>, which reaches it through its fourth branch.
\<close>

theorem contextual_fallback_counterexample:
  "getQuestionType ''How do birds fly?'' = ''how'' \<and>
   \<not> list_ex (hasKeyword (relevantKeywords ''how''))
       (candidateSentences
          ''The weather was cold and windy yesterday. Nobody went outside at all today.'') \<and>
   generateContextualAnswer ''How do birds fly?''
       ''The weather was cold and windy yesterday. Nobody went outside at all today.'' =
     Inr (AnswerRecord
       \<lparr>answer = ''The document mentions: The weather was cold and windy yesterday'',
        confidence = 3 / 4,
        sources = [''Relevant Document Section'']\<rparr>) \<and>
   generateAnswerFromContent ''How do birds fly?''
       (Some ''The weather was cold and windy yesterday. Nobody went outside at all today.'') =
     Inr (AnswerRecord
       \<lparr>answer = ''The document mentions: The weather was cold and windy yesterday'',
        confidence = 3 / 4,
        sources = [''Relevant Document Section'']\<rparr>)"
  by code_simp

section \<open>The summary branch\<close>



section \<open>The relevant sentences branch\<close>

text \<open>
  C1, as the code behaves. Let the document text have passed the gate of line 131 (at
  least 50 characters after trimming), let \<open>w\<close> be a significant word of the question (a token of the lower-cased
  question longer than 3 characters, so in particular any longer than 4) and let \<open>s\<close> be
  a candidate sentence (more than 10 characters after trimming) whose lower-cased text
  contains \<open>w\<close>. Then the answer is "Based on the document: " followed by the trimmed
  first relevant sentence, which is \<open>s\<close> or a relevant sentence before \<open>s\<close>, possibly
  followed by an "Additionally" part; the source is "Document Content Analysis".
\<close>

theorem relevant_sentence_answer:
  assumes "50 \<le> length (trim text)"
    and "w \<in> set (questionWords question)"
    and "s \<in> set (candidateSentences text)"
    and "includesStr (toLowerCase s) w"
  shows "\<exists>pre best post obj.
           candidateSentences text = pre @ best # post \<and>
           s \<in> set (best # post) \<and>
           isRelevant (questionWords question) best \<and>
           \<not> list_ex (isRelevant (questionWords question)) pre \<and>
           generateAnswerFromContent question (Some text) = Inr (AnswerRecord obj) \<and>
           prefix (''Based on the document: '' @ trim best) (answer obj) \<and>
           sources obj = [''Document Content Analysis'']"
proof -
  let ?P = "isRelevant (questionWords question)"
  have rel: "?P s"
    using assms(2,4) by (auto simp: isRelevant_def list_ex_iff)
  with assms(3) have "s \<in> set (filter ?P (candidateSentences text))"
    by simp
  then obtain best rest where br: "filter ?P (candidateSentences text) = best # rest"
    by (cases "filter ?P (candidateSentences text)") auto
  then obtain pre post where split:
    "candidateSentences text = pre @ best # post" "\<forall>u \<in> set pre. \<not> ?P u" "?P best"
    by (auto simp: filter_eq_Cons_iff)
  from split(2) rel have "s \<notin> set pre"
    by blast
  with assms(3) split(1) have mem: "s \<in> set (best # post)"
    by auto
  from split(2) have nopre: "\<not> list_ex ?P pre"
    by (simp add: list_ex_iff)
  let ?obj = "\<lparr>answer = (if filter (\<lambda>s. s \<noteq> best) (take 2 rest) \<noteq> []
                  then ''Based on the document: '' @ trim best @ '' Additionally, ''
                         @ join '' '' (filter (\<lambda>s. s \<noteq> best) (take 2 rest))
                  else ''Based on the document: '' @ trim best),
        confidence = relevantConfidence (Suc (length rest)),
        sources = [''Document Content Analysis'']\<rparr>"
  have res: "generateAnswerFromContent question (Some text) = Inr (AnswerRecord ?obj)"
    using usable_text [OF assms(1)] br relevantAnswer_Cons [of best rest]
    by (simp add: generateAnswerFromContent_def relevantSentences_def Let_def)
  have pre: "prefix (''Based on the document: '' @ trim best) (answer ?obj)"
    by (simp add: prefix_def)
  have src: "sources ?obj = [''Document Content Analysis'']"
    by simp
  from split(1) mem split(3) nopre res pre src show ?thesis
    by blast
qed

theorem relevant_sentence_answer_witness:
  "50 \<le> length (trim ''Quantum computers use qubits to store data. Classical machines use bits instead of qubits.'') \<and>
   ''qubits'' \<in> set (questionWords ''Tell me about Qubits'') \<and>
   '' Classical machines use bits instead of qubits'' \<in> set (candidateSentences
      ''Quantum computers use qubits to store data. Classical machines use bits instead of qubits.'') \<and>
   includesStr (toLowerCase '' Classical machines use bits instead of qubits'') ''qubits'' \<and>
   (\<exists>pre best post obj.
      candidateSentences
        ''Quantum computers use qubits to store data. Classical machines use bits instead of qubits.'' =
        pre @ best # post \<and>
      '' Classical machines use bits instead of qubits'' \<in> set (best # post) \<and>
      isRelevant (questionWords ''Tell me about Qubits'') best \<and>
      \<not> list_ex (isRelevant (questionWords ''Tell me about Qubits'')) pre \<and>
      generateAnswerFromContent ''Tell me about Qubits''
        (Some ''Quantum computers use qubits to store data. Classical machines use bits instead of qubits.'') =
        Inr (AnswerRecord obj) \<and>
      prefix (''Based on the document: '' @ trim best) (answer obj) \<and>
      sources obj = [''Document Content Analysis'']) \<and>
   answerText (generateAnswerFromContent ''Tell me about Qubits''
        (Some ''Quantum computers use qubits to store data. Classical machines use bits instead of qubits.'')) =
     Some ''Based on the document: Quantum computers use qubits to store data Additionally,  Classical machines use bits instead of qubits''"
proof -
  have h1: "50 \<le> length (trim ''Quantum computers use qubits to store data. Classical machines use bits instead of qubits.'')"
    by code_simp
  have h2: "''qubits'' \<in> set (questionWords ''Tell me about Qubits'')"
    by code_simp
  have h3: "'' Classical machines use bits instead of qubits'' \<in> set (candidateSentences
      ''Quantum computers use qubits to store data. Classical machines use bits instead of qubits.'')"
    by code_simp
  have h4: "includesStr (toLowerCase '' Classical machines use bits instead of qubits'') ''qubits''"
    by code_simp
  have v: "answerText (generateAnswerFromContent ''Tell me about Qubits''
        (Some ''Quantum computers use qubits to store data. Classical machines use bits instead of qubits.'')) =
     Some ''Based on the document: Quantum computers use qubits to store data Additionally,  Classical machines use bits instead of qubits''"
    by code_simp
  note c = relevant_sentence_answer [OF h1 h2 h3 h4]
  from h1 h2 h3 h4 c v show ?thesis
    by (intro conjI)
qed

text \<open>
  C1, as stated, fails for a sentence of at most 10 characters after trimming, which
  line 135 drops before the relevance filter. The document below passes the gate of
  line 131, its first sentence "Qubits ok" contains the significant word "qubits" of
  the question, and no other sentence contains a significant word; the answer comes
  from the contextual branch and starts with "The document mentions: ".
\<close>

theorem relevant_sentence_counterexample:
  "50 \<le> length (trim
      ''Qubits ok. The weather was cold and windy yesterday. Nobody went outside at all today.'') \<and>
   ''qubits'' \<in> set (questionWords ''Tell me about qubits'') \<and>
   4 < length ''qubits'' \<and>
   ''Qubits ok'' \<in> set (split isSentenceEnd
      ''Qubits ok. The weather was cold and windy yesterday. Nobody went outside at all today.'') \<and>
   includesStr (toLowerCase ''Qubits ok'') ''qubits'' \<and>
   generateAnswerFromContent ''Tell me about qubits''
      (Some ''Qubits ok. The weather was cold and windy yesterday. Nobody went outside at all today.'') =
     Inr (AnswerRecord
       \<lparr>answer = ''The document mentions: The weather was cold and windy yesterday'',
        confidence = 3 / 4,
        sources = [''Relevant Document Section'']\<rparr>) \<and>
   \<not> prefix ''Based on the document: ''
       ''The document mentions: The weather was cold and windy yesterday''"
  by code_simp

section \<open>Rounding to binary64\<close>

lemma bitlen_pos_bounds:
  assumes "0 < p"
  shows "\<exists>a. bitlen p = int (Suc a) \<and> (2::rat) ^ a \<le> of_int p \<and> of_int p < (2::rat) ^ Suc a"
proof -
  from bitlen_bounds [OF assms]
  have lo: "2 ^ nat (bitlen p - 1) \<le> p" and hi: "p < 2 ^ nat (bitlen p)"
    by simp_all
  have "0 < bitlen p"
  proof (rule ccontr)
    assume "\<not> 0 < bitlen p"
    then have "nat (bitlen p) = 0" by simp
    with hi have "p < 1" by simp
    with assms show False by simp
  qed
  then have n: "nat (bitlen p) = Suc (nat (bitlen p - 1))"
    by simp
  define a where "a = nat (bitlen p - 1)"
  from n have a: "bitlen p = int (Suc a)"
    unfolding a_def using \<open>0 < bitlen p\<close> by simp
  from lo have "2 ^ a \<le> p"
    unfolding a_def .
  moreover from hi have "p < 2 ^ Suc a"
    unfolding n a_def .
  ultimately have "2 ^ a \<le> p" "p < 2 ^ Suc a"
    by simp_all
  then have "(of_int (2 ^ a) :: rat) \<le> of_int p" "(of_int p :: rat) < of_int (2 ^ Suc a)"
    by (simp_all only: of_int_le_iff of_int_less_iff)
  with a show ?thesis
    by auto
qed

lemma binade_bounds:
  assumes "0 < x"
  shows "2 powi (binade x) \<le> x \<and> x < 2 powi (binade x + 1)"
proof -
  obtain p q where pq: "quotient_of x = (p, q)"
    by (cases "quotient_of x")
  then have q: "0 < q" and x: "x = of_int p / of_int q"
    by (simp_all add: quotient_of_denom_pos quotient_of_div)
  with assms have p: "0 < p"
    by (simp add: zero_less_divide_iff)
  from bitlen_pos_bounds [OF p] obtain a where
    a: "bitlen p = int (Suc a)" "(2::rat) ^ a \<le> of_int p" "of_int p < (2::rat) ^ Suc a"
    by blast
  from bitlen_pos_bounds [OF q] obtain b where
    b: "bitlen q = int (Suc b)" "(2::rat) ^ b \<le> of_int q" "of_int q < (2::rat) ^ Suc b"
    by blast
  define e where "e = bitlen p - bitlen q"
  have e: "e = int a - int b"
    by (simp add: e_def a b)
  have pw: "(2::rat) powi e = 2 ^ a / 2 ^ b"
    unfolding e by (simp add: power_int_diff)
  have qpos: "(0::rat) < of_int q"
    using q by simp
  have ppos: "(0::rat) < of_int p"
    using p by simp
  have up: "x < 2 powi (e + 1)"
  proof -
    have "x < 2 ^ Suc a / 2 ^ b"
      unfolding x using a(3) b(2) qpos ppos
      by (intro frac_less) simp_all
    also have "\<dots> = 2 powi (e + 1)"
      by (simp add: power_int_add pw)
    finally show ?thesis .
  qed
  have lo: "2 powi (e - 1) < x"
  proof -
    have "(2::rat) ^ a / 2 ^ Suc b < x"
      unfolding x using a(2) b(3) qpos ppos
      by (intro frac_less2) simp_all
    moreover have "(2::rat) ^ a / 2 ^ Suc b = 2 powi (e - 1)"
      by (simp add: power_int_diff pw)
    ultimately show ?thesis by simp
  qed
  have bin: "binade x = (if 2 powi e \<le> x then e else e - 1)"
    by (simp add: binade_def pq e_def Let_def)
  show ?thesis
  proof (cases "2 powi e \<le> x")
    case True
    with bin up show ?thesis by simp
  next
    case False
    with bin lo show ?thesis by simp
  qed
qed

lemma binade_mono:
  assumes "0 < x" and "x \<le> y"
  shows "binade x \<le> binade y"
proof (rule ccontr)
  assume "\<not> binade x \<le> binade y"
  then have "binade y + 1 \<le> binade x"
    by simp
  then have "(2::rat) powi (binade y + 1) \<le> 2 powi (binade x)"
    by (intro power_int_increasing) simp_all
  moreover from assms have "0 < y" by simp
  ultimately show False
    using binade_bounds [OF assms(1)] binade_bounds [OF \<open>0 < y\<close>] assms(2)
    by simp
qed

lemma roundTiesToEven_of_int: "roundTiesToEven (of_int k) = k"
  by (simp add: roundTiesToEven_def)

lemma roundTiesToEven_mono:
  assumes "p \<le> q"
  shows "roundTiesToEven p \<le> roundTiesToEven q"
proof (cases "\<lfloor>p\<rfloor> = \<lfloor>q\<rfloor>")
  case True
  with assms show ?thesis
    by (auto simp: roundTiesToEven_def Let_def)
next
  case False
  with assms have "\<lfloor>p\<rfloor> + 1 \<le> \<lfloor>q\<rfloor>"
    using floor_mono [OF assms] by simp
  moreover have "roundTiesToEven p \<le> \<lfloor>p\<rfloor> + 1"
    by (simp add: roundTiesToEven_def Let_def)
  moreover have "\<lfloor>q\<rfloor> \<le> roundTiesToEven q"
    by (simp add: roundTiesToEven_def Let_def)
  ultimately show ?thesis
    by simp
qed

lemma double_pos_eq:
  assumes "0 < x"
  shows "double x = of_int (roundTiesToEven (x / 2 powi (binade x - 52))) * 2 powi (binade x - 52)"
  using assms by (simp add: double_def Let_def)

text \<open>The rounded value stays in the closed binade of its argument.\<close>

lemma double_binade:
  assumes "0 < x"
  shows "2 powi (binade x) \<le> double x \<and> double x \<le> 2 powi (binade x + 1)"
proof -
  let ?u = "(2::rat) powi (binade x - 52)"
  have u: "0 < ?u"
    by (simp add: zero_less_power_int)
  have lo: "2 powi (binade x) = of_int (2 ^ 52) * ?u"
    by (simp add: power_int_diff)
  have hi: "2 powi (binade x + 1) = of_int (2 ^ 53) * ?u"
    by (simp add: power_int_diff power_int_add)
  from binade_bounds [OF assms] have "of_int (2 ^ 52) * ?u \<le> x" "x \<le> of_int (2 ^ 53) * ?u"
    unfolding lo [symmetric] hi [symmetric] by simp_all
  with u have "of_int (2 ^ 52) \<le> x / ?u" "x / ?u \<le> of_int (2 ^ 53)"
    by (simp_all add: pos_le_divide_eq pos_divide_le_eq)
  then have "roundTiesToEven (of_int (2 ^ 52)) \<le> roundTiesToEven (x / ?u)"
    "roundTiesToEven (x / ?u) \<le> roundTiesToEven (of_int (2 ^ 53))"
    by (simp_all only: roundTiesToEven_mono)
  then have "2 ^ 52 \<le> roundTiesToEven (x / ?u)" "roundTiesToEven (x / ?u) \<le> 2 ^ 53"
    unfolding roundTiesToEven_of_int by simp_all
  then have "(of_int (2 ^ 52) :: rat) \<le> of_int (roundTiesToEven (x / ?u))"
    "(of_int (roundTiesToEven (x / ?u)) :: rat) \<le> of_int (2 ^ 53)"
    by (simp_all only: of_int_le_iff)
  with u have "of_int (2 ^ 52) * ?u \<le> of_int (roundTiesToEven (x / ?u)) * ?u"
    "of_int (roundTiesToEven (x / ?u)) * ?u \<le> of_int (2 ^ 53) * ?u"
    by (simp_all only: mult_le_cancel_right_pos)
  then show ?thesis
    unfolding lo hi double_pos_eq [OF assms] by simp
qed

lemma double_mono_pos:
  assumes "0 < x" and "x \<le> y"
  shows "double x \<le> double y"
proof -
  from assms have y: "0 < y" by simp
  show ?thesis
  proof (cases "binade x = binade y")
    case True
    let ?u = "(2::rat) powi (binade y - 52)"
    have u: "0 < ?u"
      by (simp add: zero_less_power_int)
    with assms(2) have "x / ?u \<le> y / ?u"
      by (simp add: divide_right_mono)
    then have "roundTiesToEven (x / ?u) \<le> roundTiesToEven (y / ?u)"
      by (rule roundTiesToEven_mono)
    then have "(of_int (roundTiesToEven (x / ?u)) :: rat) \<le> of_int (roundTiesToEven (y / ?u))"
      by (simp only: of_int_le_iff)
    with u have "of_int (roundTiesToEven (x / ?u)) * ?u \<le> of_int (roundTiesToEven (y / ?u)) * ?u"
      by (simp only: mult_le_cancel_right_pos)
    then show ?thesis
      unfolding double_pos_eq [OF assms(1)] double_pos_eq [OF y] True .
  next
    case False
    with binade_mono [OF assms] have "binade x + 1 \<le> binade y"
      by simp
    then have "(2::rat) powi (binade x + 1) \<le> 2 powi (binade y)"
      by (intro power_int_increasing) simp_all
    with double_binade [OF assms(1)] double_binade [OF y] show ?thesis
      by simp
  qed
qed

lemma double_nonneg:
  assumes "0 \<le> x"
  shows "0 \<le> double x"
proof (cases "x = 0")
  case True
  then show ?thesis by (simp add: double_def)
next
  case False
  with assms have x: "0 < x" by simp
  have "(0::rat) < 2 powi (binade x)"
    by (simp add: zero_less_power_int)
  also have "\<dots> \<le> double x"
    using double_binade [OF x] by (rule conjunct1)
  finally show ?thesis
    by (rule less_imp_le)
qed

lemma double_mono:
  assumes "0 \<le> x" and "x \<le> y"
  shows "double x \<le> double y"
proof (cases "x = 0")
  case True
  with assms double_nonneg [of y] show ?thesis
    by (simp add: double_def)
next
  case False
  with assms have "0 < x" by simp
  then show ?thesis
    using assms(2) by (rule double_mono_pos)
qed

section \<open>The confidence of the relevant sentences branch\<close>

text \<open>The values of line 157 for up to three relevant sentences, and the cap.\<close>

lemma relevantConfidence_small:
  "relevantConfidence 0 = 3152519739159347 / 4503599627370496"
  "relevantConfidence 1 = 7205759403792793 / 9007199254740992"
  "relevantConfidence 2 = 2026619832316723 / 2251799813685248"
  "relevantConfidence 3 = 4278419646001971 / 4503599627370496"
  "double (95 / 100) = 4278419646001971 / 4503599627370496"
  by code_simp+

lemma double_tenth_pos: "0 < double (1 / 10)"
  by code_simp

lemma double_seven_tenths_pos: "0 < double (7 / 10)"
  by code_simp

lemma relevantConfidence_mono:
  assumes "m \<le> n"
  shows "relevantConfidence m \<le> relevantConfidence n"
proof -
  let ?c = "double (1 / 10)" and ?a = "double (7 / 10)"
  have "of_nat m * ?c \<le> of_nat n * ?c"
    using assms double_tenth_pos by (simp add: mult_right_mono)
  moreover have "0 \<le> of_nat m * ?c"
    using double_tenth_pos by simp
  ultimately have "fmul (of_nat m) ?c \<le> fmul (of_nat n) ?c"
    unfolding fmul_def by (rule double_mono [rotated])
  then have "?a + fmul (of_nat m) ?c \<le> ?a + fmul (of_nat n) ?c"
    by simp
  moreover have "0 \<le> fmul (of_nat m) ?c"
    unfolding fmul_def using \<open>0 \<le> of_nat m * ?c\<close> by (rule double_nonneg)
  then have "0 \<le> ?a + fmul (of_nat m) ?c"
    using double_seven_tenths_pos by simp
  ultimately have "fadd ?a (fmul (of_nat m) ?c) \<le> fadd ?a (fmul (of_nat n) ?c)"
    unfolding fadd_def by (rule double_mono [rotated])
  then show ?thesis
    unfolding relevantConfidence_def by (rule min.mono) simp
qed

lemma relevantConfidence_cap: "relevantConfidence n \<le> double (95 / 100)"
  by (simp add: relevantConfidence_def)

lemma relevantConfidence_large:
  assumes "3 \<le> n"
  shows "relevantConfidence n = double (95 / 100)"
proof (rule antisym)
  show "relevantConfidence n \<le> double (95 / 100)"
    by (rule relevantConfidence_cap)
  have "double (95 / 100) = relevantConfidence 3"
    by (simp only: relevantConfidence_small)
  also have "\<dots> \<le> relevantConfidence n"
    using assms by (rule relevantConfidence_mono)
  finally show "double (95 / 100) \<le> relevantConfidence n" .
qed

lemma relevantConfidence_near_exact:
  "relevantConfidence n \<le> min (7 / 10 + of_nat n / 10) (95 / 100) \<and>
   min (7 / 10 + of_nat n / 10) (95 / 100) - relevantConfidence n < 1 / 2 ^ 52"
proof -
  consider "n = 0" | "n = 1" | "n = 2" | "3 \<le> n"
    by linarith
  then show ?thesis
  proof cases
    case 1
    then show ?thesis by (simp add: relevantConfidence_small)
  next
    case 2
    with relevantConfidence_small(2) show ?thesis by simp
  next
    case 3
    then show ?thesis by (simp add: relevantConfidence_small)
  next
    case 4
    then have "(3::rat) \<le> of_nat n"
      by simp
    then have e: "min (7 / 10 + of_nat n / 10) (95 / 100) = (95 / 100 :: rat)"
      by (simp add: min_def)
    have r: "relevantConfidence n = 4278419646001971 / 4503599627370496"
      using relevantConfidence_large [OF 4] unfolding relevantConfidence_small(5) .
    show ?thesis
      unfolding e r by simp
  qed
qed

text \<open>
  C6. In the relevant sentences branch the confidence is
  \<^verbatim>\<open>Math.min(0.7 + relevantCount * 0.1, 0.95)\<close>, computed in binary64 arithmetic. It is
  non-decreasing in the number of relevant sentences and never above the binary64
  value of 0.95, which is below 0.95; it never exceeds the exact value of
  min(0.7 + 0.1 \<times> relevantCount, 0.95) and is less than \<open>2\<^sup>-\<^sup>5\<^sup>2\<close> below it.
\<close>

theorem confidence_monotone_capped:
  "(50 \<le> length (trim text) \<and>
    relevantSentences (questionWords question) (candidateSentences text) \<noteq> [] \<longrightarrow>
      (\<exists>obj. generateAnswerFromContent question (Some text) = Inr (AnswerRecord obj) \<and>
         confidence obj =
           min (fadd (double (7 / 10))
                  (fmul (of_nat (length (relevantSentences (questionWords question)
                                           (candidateSentences text))))
                     (double (1 / 10))))
               (double (95 / 100)))) \<and>
   (m \<le> n \<longrightarrow> relevantConfidence m \<le> relevantConfidence n) \<and>
   relevantConfidence n \<le> double (95 / 100) \<and>
   double (95 / 100) \<le> 95 / 100 \<and>
   relevantConfidence n \<le> min (7 / 10 + of_nat n / 10) (95 / 100) \<and>
   min (7 / 10 + of_nat n / 10) (95 / 100) - relevantConfidence n < 1 / 2 ^ 52"
proof (intro conjI impI)
  assume a: "50 \<le> length (trim text) \<and>
    relevantSentences (questionWords question) (candidateSentences text) \<noteq> []"
  then obtain best rest where
    br: "relevantSentences (questionWords question) (candidateSentences text) = best # rest"
    by (cases "relevantSentences (questionWords question) (candidateSentences text)") auto
  from a have "50 \<le> length (trim text)"
    by (rule conjunct1)
  then have u: "\<not> (text = [] \<or> length (trim text) < 50)"
    by (rule usable_text)
  have "generateAnswerFromContent question (Some text) = relevantAnswer (best # rest)"
    using u br by (simp add: generateAnswerFromContent_def Let_def)
  then show "\<exists>obj. generateAnswerFromContent question (Some text) = Inr (AnswerRecord obj) \<and>
         confidence obj =
           min (fadd (double (7 / 10))
                  (fmul (of_nat (length (relevantSentences (questionWords question)
                                           (candidateSentences text))))
                     (double (1 / 10))))
               (double (95 / 100))"
    unfolding br relevantAnswer_Cons by (simp add: relevantConfidence_def)
next
  assume "m \<le> n"
  then show "relevantConfidence m \<le> relevantConfidence n"
    by (rule relevantConfidence_mono)
next
  show "relevantConfidence n \<le> double (95 / 100)"
    by (rule relevantConfidence_cap)
next
  show "double (95 / 100) \<le> 95 / 100"
    unfolding relevantConfidence_small(5) by simp
next
  show "relevantConfidence n \<le> min (7 / 10 + of_nat n / 10) (95 / 100)"
    using relevantConfidence_near_exact [of n] by (rule conjunct1)
next
  show "min (7 / 10 + of_nat n / 10) (95 / 100) - relevantConfidence n < 1 / 2 ^ 52"
    using relevantConfidence_near_exact [of n] by (rule conjunct2)
qed

theorem confidence_monotone_capped_witness:
  "50 \<le> length (trim ''Quantum computers use qubits to store data. Classical machines use bits instead of qubits.'') \<and>
   length (relevantSentences (questionWords ''Tell me about Qubits'')
     (candidateSentences
       ''Quantum computers use qubits to store data. Classical machines use bits instead of qubits.'')) = 2 \<and>
   (\<exists>obj. generateAnswerFromContent ''Tell me about Qubits''
       (Some ''Quantum computers use qubits to store data. Classical machines use bits instead of qubits.'') =
       Inr (AnswerRecord obj) \<and>
       confidence obj = 2026619832316723 / 2251799813685248) \<and>
   relevantConfidence 1 \<le> relevantConfidence 2"
proof -
  let ?text = "''Quantum computers use qubits to store data. Classical machines use bits instead of qubits.''"
  let ?q = "''Tell me about Qubits''"
  have h1: "50 \<le> length (trim ?text)"
    by code_simp
  have h2: "length (relevantSentences (questionWords ?q) (candidateSentences ?text)) = 2"
    by code_simp
  then have h3: "relevantSentences (questionWords ?q) (candidateSentences ?text) \<noteq> []"
    by auto
  have v: "min (fadd (double (7 / 10)) (fmul (of_nat 2) (double (1 / 10)))) (double (95 / 100)) =
      2026619832316723 / 2251799813685248"
    using relevantConfidence_small(3) unfolding relevantConfidence_def .
  note th = confidence_monotone_capped [of ?text ?q 1 2]
  have c: "\<exists>obj. generateAnswerFromContent ?q (Some ?text) = Inr (AnswerRecord obj) \<and>
      confidence obj = 2026619832316723 / 2251799813685248"
    using th h1 h3 unfolding h2 v by blast
  have m: "relevantConfidence 1 \<le> relevantConfidence 2"
    using th by simp
  from h1 h2 c m show ?thesis
    by (intro conjI)
qed

section \<open>The question type\<close>

text \<open>Every piece returned by \<open>split\<close> occurs in the string that was split.\<close>

lemma splitLoop_sublist:
  assumes "inRun \<longrightarrow> piece = []" and "p \<in> set (splitLoop sep inRun piece s)"
  shows "sublist p (rev piece @ s)"
  using assms
proof (induction s arbitrary: inRun piece)
  case Nil
  then show ?case by simp
next
  case (Cons c cs)
  show ?case
  proof (cases "sep c")
    case False
    with Cons.prems have "p \<in> set (splitLoop sep False (c # piece) cs)"
      by simp
    then have "sublist p (rev (c # piece) @ cs)"
      by (intro Cons.IH) simp_all
    then show ?thesis by simp
  next
    case True
    show ?thesis
    proof (cases inRun)
      case True
      with \<open>sep c\<close> Cons.prems have "piece = []" "p \<in> set (splitLoop sep True [] cs)"
        by simp_all
      then have "sublist p (rev [] @ cs)"
        by (intro Cons.IH) simp_all
      with \<open>piece = []\<close> show ?thesis
        by (simp add: sublist_Cons_right)
    next
      case False
      with \<open>sep c\<close> Cons.prems have "p = rev piece \<or> p \<in> set (splitLoop sep True [] cs)"
        by simp
      then show ?thesis
      proof
        assume "p = rev piece"
        then show ?thesis by (simp add: sublist_append_rightI)
      next
        assume "p \<in> set (splitLoop sep True [] cs)"
        then have "sublist p (rev [] @ cs)"
          by (intro Cons.IH) simp_all
        then have "sublist p (c # cs)"
          by (simp add: sublist_Cons_right)
        then obtain before after where "c # cs = before @ p @ after"
          unfolding sublist_def by blast
        then have "rev piece @ c # cs = (rev piece @ before) @ p @ after"
          by simp
        then show ?thesis
          unfolding sublist_def by blast
      qed
    qed
  qed
qed

lemma split_includes:
  assumes "w \<in> set (split sep s)"
  shows "includesStr s w"
  using splitLoop_sublist [of False "[]" w sep s] assms
  by (simp add: split_def includesStr_sublist)

lemma find_first:
  assumes "t \<in> set xs" and "P t" and "\<not> list_ex P (takeWhile (\<lambda>x. x \<noteq> t) xs)"
  shows "find P xs = Some t"
  using assms by (induction xs) (auto split: if_splits)

lemma getQuestionType_find:
  "getQuestionType question =
     (case find (includesStr (toLowerCase question)) interrogatives of
        Some t \<Rightarrow> t | None \<Rightarrow> ''general'')"
  by (simp add: getQuestionType_def interrogatives_def Let_def)

lemma specLeadingWordType_includes:
  assumes "specLeadingWordType question = t" and "t \<noteq> ''general''"
  shows "t \<in> set interrogatives \<and> includesStr (toLowerCase question) t"
proof -
  from assms obtain w where w: "specLeadingWord question = Some w"
    by (cases "specLeadingWord question") (auto simp: specLeadingWordType_def)
  with assms have t: "w = t" "t \<in> set interrogatives"
    by (auto simp: specLeadingWordType_def split: if_splits)
  from w obtain others where
    f: "filter (\<lambda>w. w \<noteq> []) (split isWhiteSpace (toLowerCase question)) = w # others"
    by (auto simp: specLeadingWord_def split: list.splits)
  have "w \<in> set (filter (\<lambda>w. w \<noteq> []) (split isWhiteSpace (toLowerCase question)))"
    unfolding f by simp
  then have "w \<in> set (split isWhiteSpace (toLowerCase question))"
    by simp
  then have "includesStr (toLowerCase question) w"
    by (rule split_includes)
  with t show ?thesis by simp
qed

text \<open>
  C7, as the code behaves. The question type is the first of what, how, why, when, where
  and who, in this order, that occurs anywhere in the lower-cased question as a
  substring, and "general" when none occurs. It is the type named by the leading word
  when that word is "what", and for any other leading interrogative when no
  interrogative tested before it occurs anywhere in the question.
\<close>

theorem question_type_by_priority:
  "getQuestionType question =
     (case find (includesStr (toLowerCase question)) interrogatives of
        Some t \<Rightarrow> t | None \<Rightarrow> ''general'') \<and>
   getQuestionType question \<in> set (interrogatives @ [''general'']) \<and>
   (specLeadingWordType question = ''what'' \<longrightarrow> getQuestionType question = ''what'') \<and>
   (specLeadingWordType question = t \<and> t \<noteq> ''general'' \<and>
    \<not> list_ex (includesStr (toLowerCase question)) (takeWhile (\<lambda>x. x \<noteq> t) interrogatives) \<longrightarrow>
      getQuestionType question = t)"
proof (intro conjI impI)
  show "getQuestionType question =
     (case find (includesStr (toLowerCase question)) interrogatives of
        Some t \<Rightarrow> t | None \<Rightarrow> ''general'')"
    by (rule getQuestionType_find)
next
  show "getQuestionType question \<in> set (interrogatives @ [''general''])"
    by (simp add: getQuestionType_def interrogatives_def Let_def)
next
  assume "specLeadingWordType question = ''what''"
  then have "includesStr (toLowerCase question) ''what''"
    using specLeadingWordType_includes [of question "''what''"] by simp
  then show "getQuestionType question = ''what''"
    by (simp add: getQuestionType_def)
next
  assume a: "specLeadingWordType question = t \<and> t \<noteq> ''general'' \<and>
    \<not> list_ex (includesStr (toLowerCase question)) (takeWhile (\<lambda>x. x \<noteq> t) interrogatives)"
  then have "t \<in> set interrogatives \<and> includesStr (toLowerCase question) t"
    by (intro specLeadingWordType_includes) simp_all
  with a have "find (includesStr (toLowerCase question)) interrogatives = Some t"
    by (intro find_first) simp_all
  then show "getQuestionType question = t"
    by (simp add: getQuestionType_find)
qed

theorem question_type_by_priority_witness:
  "specLeadingWordType ''What is the plan?'' = ''what'' \<and>
   getQuestionType ''What is the plan?'' = ''what'' \<and>
   specLeadingWordType ''Who wrote it?'' = ''who'' \<and>
   \<not> list_ex (includesStr (toLowerCase ''Who wrote it?''))
       (takeWhile (\<lambda>x. x \<noteq> ''who'') interrogatives) \<and>
   getQuestionType ''Who wrote it?'' = ''who''"
proof -
  have h1: "specLeadingWordType ''What is the plan?'' = ''what''"
    by code_simp
  have h2: "specLeadingWordType ''Who wrote it?'' = ''who''"
    by code_simp
  have h3: "\<not> list_ex (includesStr (toLowerCase ''Who wrote it?''))
       (takeWhile (\<lambda>x. x \<noteq> ''who'') interrogatives)"
    by code_simp
  have h4: "''who'' \<noteq> ''general''"
    by simp
  have c1: "getQuestionType ''What is the plan?'' = ''what''"
    using question_type_by_priority [of "''What is the plan?''" "''what''"] h1 by blast
  have c2: "getQuestionType ''Who wrote it?'' = ''who''"
    using question_type_by_priority [of "''Who wrote it?''" "''who''"] h2 h3 h4 by blast
  from h1 c1 h2 h3 c2 show ?thesis
    by (intro conjI)
qed

text \<open>
  C7, as stated, fails. The question "Who knows what happened?" leads with "who" and has
  the type "what", which is tested first; "Show me the numbers" has no leading
  interrogative and has the type "how", which occurs inside "show".
\<close>

theorem question_type_counterexample:
  "specLeadingWordType ''Who knows what happened?'' = ''who'' \<and>
   getQuestionType ''Who knows what happened?'' = ''what'' \<and>
   specLeadingWordType ''Show me the numbers'' = ''general'' \<and>
   getQuestionType ''Show me the numbers'' = ''how''"
  by code_simp

end
